theory Spec2Isabelle
  imports
    Complex_Main
    "HOL-Library.Char_ord"
    "HOL-Library.List_Lexorder"
    "HOL-Library.Multiset"
    "HOL-Library.Sublist"
begin

section \<open>Values, exceptions and the world\<close>

text \<open>
  The service of \<^verbatim>\<open>app.py\<close>: a process-local TTL cache in front of two upstream
  providers, two aggregators that consult and fill the cache, and the route handlers
  \<^verbatim>\<open>/fx\<close> and \<^verbatim>\<open>/crypto\<close>.

  Python values that flow through the code are decoded JSON documents and the payloads
  built from them. \<open>JNull\<close> is Python's \<^verbatim>\<open>None\<close>. A \<^verbatim>\<open>dict\<close> is an association list
  read with \<open>map_of\<close>. A Python \<^verbatim>\<open>float\<close> in a document, the amount of a conversion and
  the product \<^verbatim>\<open>amount * rate\<close> are IEEE 754 binary64 values (\<open>pyfloat\<close>), multiplied
  with rounding to nearest, ties to even. The readings of the clock are modelled by
  \<open>real\<close>. Strings are lists of 8-bit characters, ordered by code point as Python orders
  \<^verbatim>\<open>str\<close>; case mapping acts on the ASCII letters and leaves every other character alone.
\<close>

text \<open>
  A Python \<^verbatim>\<open>float\<close>: \<open>Finite s m e\<close> is the number \<open>m * 2 ^ e\<close>, negative when \<open>s\<close>
  holds (so there are two zeros); \<open>Infinite s\<close> is \<^verbatim>\<open>inf\<close> or \<^verbatim>\<open>-inf\<close>. The operations
  below return a finite value with an odd \<open>m\<close>, or with \<open>m = 0\<close> and \<open>e = 0\<close>.
\<close>

datatype pyfloat =
    Finite bool nat int
  | Infinite bool
  | NaN

datatype json =
    JNull
  | JBool bool
  | JInt int
  | JFloat pyfloat
  | JStr string
  | JList "json list"
  | JDict "(string \<times> json) list"

text \<open>
  The exceptions the code can leave a function with: the \<^verbatim>\<open>HTTPException\<close> it raises
  itself (status code and detail), whatever \<^verbatim>\<open>fetch_json\<close> raises (transport failure,
  timeout, a status that is not a success, a body that is not JSON), and the errors
  Python raises on a value of the wrong shape or on an integer too large for a float.
\<close>

datatype exn =
    HTTPException nat string
  | UpstreamError
  | AttributeError
  | KeyError string
  | TypeError
  | OverflowError

text \<open>
  The world a request runs in: the store of the one global \<^verbatim>\<open>cache\<close>, the readings
  \<^verbatim>\<open>time.time()\<close> will give (\<open>clock w n\<close> is the reading number \<open>n\<close>, \<open>ticks w\<close> counts
  the readings taken so far), what the upstream providers will answer (\<open>upstream w n url\<close>
  is the answer to request number \<open>n\<close> when it asks for \<open>url\<close>, \<open>None\<close> when the fetch
  raises), and the log of the URLs requested so far.
\<close>

record world =
  store :: "string \<rightharpoonup> real \<times> json"
  clock :: "nat \<Rightarrow> real"
  ticks :: nat
  upstream :: "nat \<Rightarrow> string \<Rightarrow> json option"
  fetches :: "string list"

section \<open>Python primitives\<close>

text \<open>The truth value of a Python object, as \<^verbatim>\<open>if x:\<close> and \<^verbatim>\<open>not x\<close> take it.\<close>

fun truthy :: "json \<Rightarrow> bool" where
  "truthy JNull = False"
| "truthy (JBool b) = b"
| "truthy (JInt i) = (i \<noteq> 0)"
| "truthy (JFloat x) = (case x of Finite s m e \<Rightarrow> m \<noteq> 0 | _ \<Rightarrow> True)"
| "truthy (JStr s) = (s \<noteq> [])"
| "truthy (JList xs) = (xs \<noteq> [])"
| "truthy (JDict kvs) = (kvs \<noteq> [])"

text \<open>\<^verbatim>\<open>isinstance(v, dict)\<close>.\<close>

fun is_dict :: "json \<Rightarrow> bool" where
  "is_dict (JDict kvs) = True"
| "is_dict v = False"

text \<open>\<^verbatim>\<open>v.get(k)\<close>: only a dict has the method; a missing key gives \<^verbatim>\<open>None\<close>.\<close>

fun py_get :: "json \<Rightarrow> string \<Rightarrow> exn + json" where
  "py_get (JDict kvs) k = Inr (case map_of kvs k of None \<Rightarrow> JNull | Some v \<Rightarrow> v)"
| "py_get v k = Inl AttributeError"

text \<open>\<^verbatim>\<open>v[k]\<close> with a string \<open>k\<close>: a missing key of a dict raises \<^verbatim>\<open>KeyError\<close>, every
  other kind of value raises \<^verbatim>\<open>TypeError\<close>.\<close>

fun py_getitem :: "json \<Rightarrow> string \<Rightarrow> exn + json" where
  "py_getitem (JDict kvs) k = (case map_of kvs k of None \<Rightarrow> Inl (KeyError k) | Some v \<Rightarrow> Inr v)"
| "py_getitem v k = Inl TypeError"

text \<open>\<^verbatim>\<open>k in v\<close> with a string \<open>k\<close>: a key of a dict, an element of a list, a substring
  of a string; the other values are not containers.\<close>

fun py_contains :: "string \<Rightarrow> json \<Rightarrow> exn + bool" where
  "py_contains k (JDict kvs) = Inr (k \<in> set (map fst kvs))"
| "py_contains k (JList xs) = Inr (JStr k \<in> set xs)"
| "py_contains k (JStr s) = Inr (sublist k s)"
| "py_contains k v = Inl TypeError"

text \<open>\<^verbatim>\<open>int(x)\<close> of a float truncates towards zero.\<close>

definition py_int :: "real \<Rightarrow> int" where
  "py_int x = (if 0 \<le> x then \<lfloor>x\<rfloor> else \<lceil>x\<rceil>)"

subsection \<open>Strings\<close>

definition upper_char :: "char \<Rightarrow> char" where
  "upper_char c = (if CHR ''a'' \<le> c \<and> c \<le> CHR ''z'' then char_of (of_char c - (32::nat)) else c)"

definition lower_char :: "char \<Rightarrow> char" where
  "lower_char c = (if CHR ''A'' \<le> c \<and> c \<le> CHR ''Z'' then char_of (of_char c + (32::nat)) else c)"

text \<open>\<^verbatim>\<open>s.upper()\<close> and \<^verbatim>\<open>s.lower()\<close>.\<close>

definition upper :: "string \<Rightarrow> string" where
  "upper s = map upper_char s"

definition lower :: "string \<Rightarrow> string" where
  "lower s = map lower_char s"

text \<open>\<^verbatim>\<open>sep.join(xs)\<close>.\<close>

fun join :: "string \<Rightarrow> string list \<Rightarrow> string" where
  "join sep [] = []"
| "join sep [x] = x"
| "join sep (x # y # ys) = x @ sep @ join sep (y # ys)"

text \<open>\<^verbatim>\<open>s.split(sep)\<close> with a separator of one character: every occurrence of the
  separator ends a segment, so the result is never empty and \<^verbatim>\<open>"".split(",")\<close> is
  \<^verbatim>\<open>[""]\<close>.\<close>

fun split :: "char \<Rightarrow> string \<Rightarrow> string list" where
  "split sep [] = [[]]"
| "split sep (c # cs) =
     (if c = sep then [] # split sep cs
      else (c # hd (split sep cs)) # tl (split sep cs))"

text \<open>The characters \<^verbatim>\<open>str.strip()\<close> removes, among the code points below 256.\<close>

definition is_space :: "char \<Rightarrow> bool" where
  "is_space c =
     (let n = (of_char c :: nat)
      in (9 \<le> n \<and> n \<le> 13) \<or> (28 \<le> n \<and> n \<le> 32) \<or> n = 133 \<or> n = 160)"

definition strip :: "string \<Rightarrow> string" where
  "strip s = rev (dropWhile is_space (rev (dropWhile is_space s)))"

subsection \<open>Floating point\<close>

text \<open>The number of bits of a natural number, \<^verbatim>\<open>int.bit_length()\<close>.\<close>

fun bit_length :: "nat \<Rightarrow> nat" where
  "bit_length n = (if n = 0 then 0 else Suc (bit_length (n div 2)))"

declare bit_length.simps [simp del]

text \<open>The same number \<open>m * 2 ^ e\<close> with an odd \<open>m\<close>.\<close>

function trim_even :: "nat \<Rightarrow> int \<Rightarrow> nat \<times> int" where
  "trim_even m e =
     (if m = 0 then (0, 0)
      else if even m then trim_even (m div 2) (e + 1)
      else (m, e))"
  by pat_completeness auto
termination
  by (relation "measure (\<lambda>(m, e). m)") auto

declare trim_even.simps [simp del]

text \<open>
  The binary64 value nearest to \<open>m * 2 ^ e\<close> (with the sign \<open>s\<close>). A binary64 value has
  at most 53 bits and an exponent of at least -1074, so the bits of \<open>m\<close> below that are
  rounded away, to nearest and to even on a tie; a result of \<open>2 ^ 1024\<close> or more is an
  infinity.
\<close>

definition finish_double :: "bool \<Rightarrow> nat \<Rightarrow> int \<Rightarrow> pyfloat" where
  "finish_double s m e =
     (if m = 0 then Finite s 0 0
      else if int (bit_length m) + e > 1024 then Infinite s
      else (case trim_even m e of (m', e') \<Rightarrow> Finite s m' e'))"

definition round_double :: "bool \<Rightarrow> nat \<Rightarrow> int \<Rightarrow> pyfloat" where
  "round_double s m e =
     (let shift = max (int (bit_length m) - 53) (- 1074 - e)
      in if shift \<le> 0 then finish_double s m e
         else
           (let q = 2 ^ nat shift;
                f = m div q;
                r = m mod q;
                half = q div 2;
                m' = (if r < half then f
                      else if half < r then f + 1
                      else if even f then f
                      else f + 1)
            in finish_double s m' (e + shift)))"

text \<open>\<^verbatim>\<open>x * y\<close> of two floats.\<close>

fun float_mul :: "pyfloat \<Rightarrow> pyfloat \<Rightarrow> pyfloat" where
  "float_mul NaN y = NaN"
| "float_mul x NaN = NaN"
| "float_mul (Infinite s) (Infinite t) = Infinite (s \<noteq> t)"
| "float_mul (Infinite s) (Finite t n f) = (if n = 0 then NaN else Infinite (s \<noteq> t))"
| "float_mul (Finite s m e) (Infinite t) = (if m = 0 then NaN else Infinite (s \<noteq> t))"
| "float_mul (Finite s m e) (Finite t n f) = round_double (s \<noteq> t) (m * n) (e + f)"

text \<open>The float of a Python \<^verbatim>\<open>int\<close>, as the arithmetic of floats converts its other
  operand: the nearest binary64 value, and an \<^verbatim>\<open>OverflowError\<close> when that is not finite.\<close>

definition int_to_float :: "int \<Rightarrow> exn + pyfloat" where
  "int_to_float i =
     (case round_double (i < 0) (nat \<bar>i\<bar>) 0 of
        Infinite s \<Rightarrow> Inl OverflowError
      | x \<Rightarrow> Inr x)"

text \<open>\<^verbatim>\<open>a * v\<close> with a float \<open>a\<close>: an \<^verbatim>\<open>int\<close> is converted first (\<^verbatim>\<open>True\<close> and \<^verbatim>\<open>False\<close>
  are the integers 1 and 0), a float is multiplied as it is, and everything else is a
  \<^verbatim>\<open>TypeError\<close>.\<close>

fun py_float_mul :: "pyfloat \<Rightarrow> json \<Rightarrow> exn + pyfloat" where
  "py_float_mul a (JInt i) =
     (case int_to_float i of Inl e \<Rightarrow> Inl e | Inr x \<Rightarrow> Inr (float_mul a x))"
| "py_float_mul a (JFloat x) = Inr (float_mul a x)"
| "py_float_mul a (JBool b) =
     (case int_to_float (if b then 1 else 0) of
        Inl e \<Rightarrow> Inl e
      | Inr x \<Rightarrow> Inr (float_mul a x))"
| "py_float_mul a v = Inl TypeError"

section \<open>The TTL cache\<close>

text \<open>\<^verbatim>\<open>time.time()\<close>: the next reading of the clock.\<close>

definition time_time :: "world \<Rightarrow> real \<times> world" where
  "time_time w = (clock w (ticks w), w\<lparr>ticks := Suc (ticks w)\<rparr>)"

text \<open>\<^verbatim>\<open>TTLCache.get\<close>: the clock is read only when the key is in the store.\<close>

definition TTLCache_get :: "string \<Rightarrow> int \<Rightarrow> world \<Rightarrow> json \<times> world" where
  "TTLCache_get key max_age w =
     (case store w key of
        None \<Rightarrow> (JNull, w)
      | Some (ts, data) \<Rightarrow>
          (case time_time w of
             (now, w') \<Rightarrow> if now - ts < of_int max_age then (data, w') else (JNull, w')))"

text \<open>\<^verbatim>\<open>TTLCache.set\<close>.\<close>

definition TTLCache_set :: "string \<Rightarrow> json \<Rightarrow> world \<Rightarrow> world" where
  "TTLCache_set key data w =
     (case time_time w of
        (now, w') \<Rightarrow> w'\<lparr>store := (store w')(key \<mapsto> (now, data))\<rparr>)"

section \<open>The upstream fetcher\<close>

text \<open>\<^verbatim>\<open>fetch_json\<close>: one request to the provider, logged; it raises or returns the
  decoded body, whatever its shape.\<close>

definition fetch_json :: "string \<Rightarrow> world \<Rightarrow> (exn + json) \<times> world" where
  "fetch_json url w =
     (let w' = w\<lparr>fetches := fetches w @ [url]\<rparr>
      in case upstream w (length (fetches w)) url of
           None \<Rightarrow> (Inl UpstreamError, w')
         | Some body \<Rightarrow> (Inr body, w'))"

section \<open>The aggregators\<close>

text \<open>The cache key and the upstream URL of \<^verbatim>\<open>get_fiat_rates\<close>, both formatted from
  the base after it has been uppercased.\<close>

definition fiat_key :: "string \<Rightarrow> string" where
  "fiat_key base = ''fx:'' @ base"

definition fiat_url :: "string \<Rightarrow> string" where
  "fiat_url base = ''https://api.exchangerate.host/latest?base='' @ base"

definition get_fiat_rates :: "string \<Rightarrow> world \<Rightarrow> (exn + json) \<times> world" where
  "get_fiat_rates base0 w0 =
     (let base = upper base0;
          key = fiat_key base
      in case TTLCache_get key (60 * 30) w0 of
           (cached, w1) \<Rightarrow>
             if truthy cached then (Inr cached, w1)
             else
               (let url = fiat_url base
                in case fetch_json url w1 of
                     (Inl e, w2) \<Rightarrow> (Inl e, w2)
                   | (Inr data, w2) \<Rightarrow>
                       (case py_get data ''rates'' of
                          Inl e \<Rightarrow> (Inl e, w2)
                        | Inr rates \<Rightarrow>
                            if \<not> truthy rates then (Inl (HTTPException 502 ''No rates''), w2)
                            else
                              (case time_time w2 of
                                 (now, w3) \<Rightarrow>
                                   (let payload =
                                          JDict [(''base'', JStr base), (''rates'', rates),
                                                 (''ts'', JInt (py_int now))]
                                    in (Inr payload, TTLCache_set key payload w3))))))"

text \<open>The cache key and the upstream URL of \<^verbatim>\<open>get_crypto_simple\<close>, both formatted
  from the lists after they have been lowercased: the key joins the sorted lists, the URL
  joins them in the order given.\<close>

definition crypto_key :: "string list \<Rightarrow> string list \<Rightarrow> string" where
  "crypto_key coins vs = ''cg:'' @ join '','' (sort coins) @ ''|'' @ join '','' (sort vs)"

definition crypto_url :: "string list \<Rightarrow> string list \<Rightarrow> string" where
  "crypto_url coins vs =
     ''https://api.coingecko.com/api/v3/simple/price''
     @ ''?ids='' @ join '','' coins @ ''&vs_currencies='' @ join '','' vs"

definition get_crypto_simple :: "string list \<Rightarrow> string list \<Rightarrow> world \<Rightarrow> (exn + json) \<times> world" where
  "get_crypto_simple coins0 vs0 w0 =
     (let coins = map lower coins0;
          vs = map lower vs0;
          key = crypto_key coins vs
      in case TTLCache_get key 60 w0 of
           (cached, w1) \<Rightarrow>
             if truthy cached then (Inr cached, w1)
             else
               (let url = crypto_url coins vs
                in case fetch_json url w1 of
                     (Inl e, w2) \<Rightarrow> (Inl e, w2)
                   | (Inr data, w2) \<Rightarrow>
                       if \<not> is_dict data \<or> \<not> truthy data
                       then (Inl (HTTPException 502 ''No crypto data''), w2)
                       else
                         (case time_time w2 of
                            (now, w3) \<Rightarrow>
                              (let payload = JDict [(''data'', data), (''ts'', JInt (py_int now))]
                               in (Inr payload, TTLCache_set key payload w3)))))"

section \<open>The route handlers\<close>

text \<open>\<^verbatim>\<open>GET /fx\<close>. The dict of the answer is built field by field, in the order of the
  source, and the first field that raises ends the request.\<close>

definition fx :: "string \<Rightarrow> string \<Rightarrow> pyfloat \<Rightarrow> world \<Rightarrow> (exn + json) \<times> world" where
  "fx base to amount w0 =
     (case get_fiat_rates base w0 of
        (Inl e, w1) \<Rightarrow> (Inl e, w1)
      | (Inr data, w1) \<Rightarrow>
          (let to_up = upper to
           in case py_getitem data ''rates'' of
                Inl e \<Rightarrow> (Inl e, w1)
              | Inr rs \<Rightarrow>
                  (case py_contains to_up rs of
                     Inl e \<Rightarrow> (Inl e, w1)
                   | Inr present \<Rightarrow>
                       if \<not> present
                       then (Inl (HTTPException 400 (''Unsupported target: '' @ to_up)), w1)
                       else
                         (case py_getitem rs to_up of
                            Inl e \<Rightarrow> (Inl e, w1)
                          | Inr rate \<Rightarrow>
                              (case py_float_mul amount rate of
                                 Inl e \<Rightarrow> (Inl e, w1)
                               | Inr result \<Rightarrow>
                                   (case py_getitem data ''ts'' of
                                      Inl e \<Rightarrow> (Inl e, w1)
                                    | Inr ts \<Rightarrow>
                                        (Inr (JDict [(''base'', JStr (upper base)),
                                                     (''to'', JStr to_up),
                                                     (''rate'', rate),
                                                     (''amount'', JFloat amount),
                                                     (''result'', JFloat result),
                                                     (''ts'', ts)]), w1)))))))"

text \<open>The list a comma-separated query parameter stands for:
  \<^verbatim>\<open>[c.strip() for c in s.split(",") if c.strip()]\<close>.\<close>

definition csv_list :: "string \<Rightarrow> string list" where
  "csv_list s = map strip (filter (\<lambda>c. strip c \<noteq> []) (split CHR '','' s))"

text \<open>\<^verbatim>\<open>GET /crypto\<close>.\<close>

definition crypto :: "string \<Rightarrow> string \<Rightarrow> world \<Rightarrow> (exn + json) \<times> world" where
  "crypto coins vs w =
     (let coins_list = csv_list coins;
          vs_list = csv_list vs
      in get_crypto_simple coins_list vs_list w)"

section \<open>Notions the properties are stated with\<close>

text \<open>The float a rate stands for in \<^verbatim>\<open>amount * rate\<close>, when it has one: a float is
  itself, an integer (or a truth value) is its conversion when that does not overflow.\<close>

fun num_of :: "json \<Rightarrow> pyfloat option" where
  "num_of (JInt i) = (case int_to_float i of Inl e \<Rightarrow> None | Inr x \<Rightarrow> Some x)"
| "num_of (JFloat x) = Some x"
| "num_of (JBool b) =
     (case int_to_float (if b then 1 else 0) of Inl e \<Rightarrow> None | Inr x \<Rightarrow> Some x)"
| "num_of v = None"

text \<open>The number a finite float is.\<close>

definition float_val :: "pyfloat \<Rightarrow> real" where
  "float_val x =
     (case x of
        Finite s m e \<Rightarrow>
          (if s then - 1 else 1) * real m * (if 0 \<le> e then 2 ^ nat e else 1 / 2 ^ nat (- e))
      | _ \<Rightarrow> 0)"

text \<open>A string without lowercase ASCII letters, and one without uppercase ASCII letters.\<close>

definition uppercased :: "string \<Rightarrow> bool" where
  "uppercased s = (\<forall>c \<in> set s. \<not> (CHR ''a'' \<le> c \<and> c \<le> CHR ''z''))"

definition lowercased :: "string \<Rightarrow> bool" where
  "lowercased s = (\<forall>c \<in> set s. \<not> (CHR ''A'' \<le> c \<and> c \<le> CHR ''Z''))"

text \<open>The key of a crypto request as it would be if the currency codes of the second list
  were uppercased, the coin ids lowercased and both lists sorted.\<close>

definition crypto_key_upper_vs :: "string list \<Rightarrow> string list \<Rightarrow> string" where
  "crypto_key_upper_vs coins vs =
     ''cg:'' @ join '','' (sort (map lower coins)) @ ''|'' @ join '','' (sort (map upper vs))"

text \<open>The shape of the payloads: a dict that is not empty, with an integer under
  \<^verbatim>\<open>"ts"\<close>, and with \<^verbatim>\<open>"base"\<close> and \<^verbatim>\<open>"rates"\<close> (fiat) or with \<^verbatim>\<open>"data"\<close> (crypto).\<close>

definition has_int_ts :: "json \<Rightarrow> bool" where
  "has_int_ts p = (case py_getitem p ''ts'' of Inr (JInt t) \<Rightarrow> True | _ \<Rightarrow> False)"

definition has_key :: "json \<Rightarrow> string \<Rightarrow> bool" where
  "has_key p k = (case py_getitem p k of Inr v \<Rightarrow> True | Inl e \<Rightarrow> False)"

definition fiat_payload :: "json \<Rightarrow> bool" where
  "fiat_payload p =
     (is_dict p \<and> truthy p \<and> has_int_ts p \<and> has_key p ''base'' \<and> has_key p ''rates'')"

definition crypto_payload :: "json \<Rightarrow> bool" where
  "crypto_payload p = (is_dict p \<and> truthy p \<and> has_int_ts p \<and> has_key p ''data'')"

text \<open>The invariant of the cache: every entry under a key that starts with \<^verbatim>\<open>fx:\<close> holds a
  fiat payload, every entry under a key that starts with \<^verbatim>\<open>cg:\<close> a crypto payload, and
  there are no other entries.\<close>

definition cache_ok :: "world \<Rightarrow> bool" where
  "cache_ok w =
     (\<forall>k t p. store w k = Some (t, p) \<longrightarrow>
        (prefix ''fx:'' k \<and> fiat_payload p) \<or> (prefix ''cg:'' k \<and> crypto_payload p))"

text \<open>The worlds the process can be in: it starts with an empty cache, only the two
  aggregators write to the cache, and between two of their calls anything but the store
  may change (the clock, the providers, the log).\<close>

inductive reachable :: "world \<Rightarrow> bool" where
  start: "store w = Map.empty \<Longrightarrow> reachable w"
| fiat: "reachable w \<Longrightarrow> reachable (snd (get_fiat_rates base w))"
| crypto: "reachable w \<Longrightarrow> reachable (snd (get_crypto_simple coins vs w))"
| env: "reachable w \<Longrightarrow> store w' = store w \<Longrightarrow> reachable w'"

section \<open>Example worlds\<close>

text \<open>A rates payload fetched at time 1000 and a world whose cache holds it since time
  1001; the clock of that world now reads 1102, and no provider answers.\<close>

definition usd_payload :: json where
  "usd_payload =
     JDict [(''base'', JStr ''USD''), (''rates'', JDict [(''NGN'', JInt 1500)]),
            (''ts'', JInt 1000)]"

definition warm_world :: world where
  "warm_world =
     \<lparr>store = [''fx:USD'' \<mapsto> (1001, usd_payload)],
      clock = (\<lambda>n. 1100 + real n),
      ticks = 2,
      upstream = (\<lambda>n url. None),
      fetches = [''https://api.exchangerate.host/latest?base=USD'']\<rparr>"

text \<open>A world with an empty cache. The rates provider knows the base USD only; the price
  provider knows bitcoin in usd, and answers a request for the coin \<^verbatim>\<open>nocoin\<close> with the
  empty object.\<close>

definition btc_prices :: json where
  "btc_prices = JDict [(''bitcoin'', JDict [(''usd'', JInt 50000)])]"

definition cold_world :: world where
  "cold_world =
     \<lparr>store = Map.empty,
      clock = (\<lambda>n. 1000 + real n),
      ticks = 0,
      upstream = (\<lambda>n url.
        if url = ''https://api.exchangerate.host/latest?base=USD''
        then Some (JDict [(''rates'', JDict [(''NGN'', JInt 1500)])])
        else if url = ''https://api.coingecko.com/api/v3/simple/price?ids=bitcoin&vs_currencies=usd''
        then Some btc_prices
        else if url = ''https://api.coingecko.com/api/v3/simple/price?ids=nocoin&vs_currencies=usd''
        then Some (JDict [])
        else None),
      fetches = []\<rparr>"

text \<open>A world with an empty cache whose rates provider quotes one NGN rate for the base
  USD: an integer of 310 digits.\<close>

definition huge_rate :: int where
  "huge_rate = 10 ^ 309"

definition huge_rate_world :: world where
  "huge_rate_world =
     \<lparr>store = Map.empty,
      clock = (\<lambda>n. 1000 + real n),
      ticks = 0,
      upstream = (\<lambda>n url. Some (JDict [(''rates'', JDict [(''NGN'', JInt huge_rate)])])),
      fetches = []\<rparr>"

section \<open>How the cache and the aggregators compute\<close>

lemma upper_usd: "upper ''usd'' = ''USD''" by code_simp
lemma upper_eur: "upper ''eur'' = ''EUR''" by code_simp
lemma upper_ngn: "upper ''ngn'' = ''NGN''" by code_simp
lemma upper_zzz: "upper ''zzz'' = ''ZZZ''" by code_simp
lemma lower_bitcoin: "lower ''Bitcoin'' = ''bitcoin''" by code_simp

lemma TTLCache_get_frame:
  assumes "TTLCache_get key max_age w = (c, w1)"
  shows "store w1 = store w" and "upstream w1 = upstream w" and "fetches w1 = fetches w"
    and "clock w1 = clock w"
  using assms by (auto simp: TTLCache_get_def time_time_def split: option.splits if_splits)

lemma TTLCache_get_absent:
  "store w key = None \<Longrightarrow> TTLCache_get key max_age w = (JNull, w)"
  by (simp add: TTLCache_get_def)

lemma TTLCache_get_present:
  "store w key = Some (t, p) \<Longrightarrow>
   TTLCache_get key max_age w =
     (if clock w (ticks w) - t < real_of_int max_age then p else JNull,
      w\<lparr>ticks := Suc (ticks w)\<rparr>)"
  by (simp add: TTLCache_get_def time_time_def)

lemma get_fiat_rates_hit:
  assumes "TTLCache_get (fiat_key (upper base)) 1800 w = (c, w1)" and "truthy c"
  shows "get_fiat_rates base w = (Inr c, w1)"
  using assms by (simp add: get_fiat_rates_def Let_def)

lemma get_fiat_rates_miss:
  assumes "TTLCache_get (fiat_key (upper base)) 1800 w = (c, w1)" and "\<not> truthy c"
  shows "get_fiat_rates base w =
     (case upstream w1 (length (fetches w1)) (fiat_url (upper base)) of
        None \<Rightarrow> (Inl UpstreamError, w1\<lparr>fetches := fetches w1 @ [fiat_url (upper base)]\<rparr>)
      | Some data \<Rightarrow>
          (case py_get data ''rates'' of
             Inl e \<Rightarrow> (Inl e, w1\<lparr>fetches := fetches w1 @ [fiat_url (upper base)]\<rparr>)
           | Inr rates \<Rightarrow>
               if \<not> truthy rates
               then (Inl (HTTPException 502 ''No rates''),
                     w1\<lparr>fetches := fetches w1 @ [fiat_url (upper base)]\<rparr>)
               else (Inr (JDict [(''base'', JStr (upper base)), (''rates'', rates),
                                 (''ts'', JInt (py_int (clock w1 (ticks w1))))]),
                     w1\<lparr>fetches := fetches w1 @ [fiat_url (upper base)],
                        ticks := Suc (Suc (ticks w1)),
                        store := (store w1)(fiat_key (upper base) \<mapsto>
                          (clock w1 (Suc (ticks w1)),
                           JDict [(''base'', JStr (upper base)), (''rates'', rates),
                                  (''ts'', JInt (py_int (clock w1 (ticks w1))))]))\<rparr>)))"
  using assms
  by (simp add: get_fiat_rates_def Let_def fetch_json_def time_time_def TTLCache_set_def
           split: option.splits sum.splits)

lemma get_crypto_simple_hit:
  assumes "TTLCache_get (crypto_key (map lower coins) (map lower vs)) 60 w = (c, w1)"
    and "truthy c"
  shows "get_crypto_simple coins vs w = (Inr c, w1)"
  using assms by (simp add: get_crypto_simple_def Let_def)

lemma get_crypto_simple_miss:
  assumes "TTLCache_get (crypto_key (map lower coins) (map lower vs)) 60 w = (c, w1)"
    and "\<not> truthy c"
  shows "get_crypto_simple coins vs w =
     (case upstream w1 (length (fetches w1)) (crypto_url (map lower coins) (map lower vs)) of
        None \<Rightarrow>
          (Inl UpstreamError,
           w1\<lparr>fetches := fetches w1 @ [crypto_url (map lower coins) (map lower vs)]\<rparr>)
      | Some data \<Rightarrow>
          if \<not> is_dict data \<or> \<not> truthy data
          then (Inl (HTTPException 502 ''No crypto data''),
                w1\<lparr>fetches := fetches w1 @ [crypto_url (map lower coins) (map lower vs)]\<rparr>)
          else (Inr (JDict [(''data'', data), (''ts'', JInt (py_int (clock w1 (ticks w1))))]),
                w1\<lparr>fetches := fetches w1 @ [crypto_url (map lower coins) (map lower vs)],
                   ticks := Suc (Suc (ticks w1)),
                   store := (store w1)(crypto_key (map lower coins) (map lower vs) \<mapsto>
                     (clock w1 (Suc (ticks w1)),
                      JDict [(''data'', data),
                             (''ts'', JInt (py_int (clock w1 (ticks w1))))]))\<rparr>))"
  using assms
  by (simp add: get_crypto_simple_def Let_def fetch_json_def time_time_def TTLCache_set_def
           split: option.splits sum.splits)

lemma get_fiat_rates_failure_store:
  assumes "fst (get_fiat_rates base w) = Inl e"
  shows "store (snd (get_fiat_rates base w)) = store w"
proof -
  obtain c w1 where g: "TTLCache_get (fiat_key (upper base)) 1800 w = (c, w1)"
    by (cases "TTLCache_get (fiat_key (upper base)) 1800 w")
  have s: "store w1 = store w" using TTLCache_get_frame(1) [OF g] .
  show ?thesis
  proof (cases "truthy c")
    case True
    with assms show ?thesis by (simp add: get_fiat_rates_hit [OF g])
  next
    case False
    with assms s show ?thesis
      by (auto simp: get_fiat_rates_miss [OF g] split: option.splits sum.splits if_splits)
  qed
qed

lemma get_crypto_simple_failure_store:
  assumes "fst (get_crypto_simple coins vs w) = Inl e"
  shows "store (snd (get_crypto_simple coins vs w)) = store w"
proof -
  obtain c w1 where g: "TTLCache_get (crypto_key (map lower coins) (map lower vs)) 60 w = (c, w1)"
    by (cases "TTLCache_get (crypto_key (map lower coins) (map lower vs)) 60 w")
  have s: "store w1 = store w" using TTLCache_get_frame(1) [OF g] .
  show ?thesis
  proof (cases "truthy c")
    case True
    with assms show ?thesis by (simp add: get_crypto_simple_hit [OF g])
  next
    case False
    with assms s show ?thesis
      by (auto simp: get_crypto_simple_miss [OF g] split: option.splits if_splits)
  qed
qed

lemma cold_fiat_usd:
  "get_fiat_rates ''usd'' cold_world =
     (Inr usd_payload,
      cold_world\<lparr>store := [''fx:USD'' \<mapsto> (1001, usd_payload)], ticks := 2,
                 fetches := [''https://api.exchangerate.host/latest?base=USD'']\<rparr>)"
proof -
  have g: "TTLCache_get (fiat_key (upper ''usd'')) 1800 cold_world = (JNull, cold_world)"
    by (simp add: TTLCache_get_absent cold_world_def)
  show ?thesis
    by (simp add: get_fiat_rates_miss [OF g])
       (simp add: upper_usd fiat_key_def fiat_url_def cold_world_def usd_payload_def py_int_def)
qed

lemma cold_fiat_eur:
  "get_fiat_rates ''eur'' cold_world =
     (Inl UpstreamError,
      cold_world\<lparr>fetches := [''https://api.exchangerate.host/latest?base=EUR'']\<rparr>)"
proof -
  have g: "TTLCache_get (fiat_key (upper ''eur'')) 1800 cold_world = (JNull, cold_world)"
    by (simp add: TTLCache_get_absent cold_world_def)
  show ?thesis
    by (simp add: get_fiat_rates_miss [OF g])
       (simp add: upper_eur fiat_key_def fiat_url_def cold_world_def)
qed

lemma warm_fiat_usd:
  "get_fiat_rates ''usd'' warm_world = (Inr usd_payload, warm_world\<lparr>ticks := 3\<rparr>)"
proof -
  have "store warm_world (fiat_key (upper ''usd'')) = Some (1001, usd_payload)"
    by (simp add: upper_usd fiat_key_def warm_world_def)
  from TTLCache_get_present [OF this, of 1800]
  have g: "TTLCache_get (fiat_key (upper ''usd'')) 1800 warm_world
             = (usd_payload, warm_world\<lparr>ticks := 3\<rparr>)"
    by (simp add: warm_world_def)
  show ?thesis
    by (rule get_fiat_rates_hit [OF g]) (simp add: usd_payload_def)
qed

lemma cold_crypto_nocoin:
  "get_crypto_simple [''nocoin''] [''usd''] cold_world =
     (Inl (HTTPException 502 ''No crypto data''),
      cold_world\<lparr>fetches :=
        [''https://api.coingecko.com/api/v3/simple/price?ids=nocoin&vs_currencies=usd'']\<rparr>)"
proof -
  have g: "TTLCache_get (crypto_key (map lower [''nocoin'']) (map lower [''usd''])) 60 cold_world
             = (JNull, cold_world)"
    by (simp add: TTLCache_get_absent cold_world_def)
  have l: "lower ''nocoin'' = ''nocoin''" "lower ''usd'' = ''usd''"
    by code_simp+
  show ?thesis
    by (simp add: get_crypto_simple_miss [OF g])
       (simp add: l crypto_url_def cold_world_def)
qed

lemma get_fiat_rates_success_entry:
  assumes "get_fiat_rates base w = (Inr p, w1)"
  shows "truthy p \<and> (\<exists>t. store w1 (fiat_key (upper base)) = Some (t, p))"
proof -
  obtain c w0 where g: "TTLCache_get (fiat_key (upper base)) 1800 w = (c, w0)"
    by (cases "TTLCache_get (fiat_key (upper base)) 1800 w")
  show ?thesis
  proof (cases "truthy c")
    case True
    with assms have eq: "c = p" "w0 = w1" by (simp_all add: get_fiat_rates_hit [OF g])
    from g True have "\<exists>t. store w (fiat_key (upper base)) = Some (t, c)"
      by (auto simp: TTLCache_get_def time_time_def split: option.splits if_splits)
    with TTLCache_get_frame(1) [OF g] eq True show ?thesis by simp
  next
    case False
    with assms show ?thesis
      by (auto simp: get_fiat_rates_miss [OF g] split: option.splits sum.splits if_splits)
  qed
qed

lemma get_crypto_simple_success_entry:
  assumes "get_crypto_simple coins vs w = (Inr p, w1)"
  shows "truthy p
    \<and> (\<exists>t. store w1 (crypto_key (map lower coins) (map lower vs)) = Some (t, p))"
proof -
  obtain c w0 where
    g: "TTLCache_get (crypto_key (map lower coins) (map lower vs)) 60 w = (c, w0)"
    by (cases "TTLCache_get (crypto_key (map lower coins) (map lower vs)) 60 w")
  show ?thesis
  proof (cases "truthy c")
    case True
    with assms have eq: "c = p" "w0 = w1" by (simp_all add: get_crypto_simple_hit [OF g])
    from g True
    have "\<exists>t. store w (crypto_key (map lower coins) (map lower vs)) = Some (t, c)"
      by (auto simp: TTLCache_get_def time_time_def split: option.splits if_splits)
    with TTLCache_get_frame(1) [OF g] eq True show ?thesis by simp
  next
    case False
    with assms show ?thesis
      by (auto simp: get_crypto_simple_miss [OF g] split: option.splits if_splits)
  qed
qed

lemma fiat_second_request:
  assumes "get_fiat_rates base w = (Inr p, w1)"
    and "store w1 (fiat_key (upper base)) = Some (t, p')"
    and "store w2 (fiat_key (upper base)) = store w1 (fiat_key (upper base))"
    and "clock w2 (ticks w2) - t < 1800"
  shows "p' = p \<and> get_fiat_rates base w2 = (Inr p, w2\<lparr>ticks := Suc (ticks w2)\<rparr>)"
proof -
  from assms(1,2) get_fiat_rates_success_entry [of base w p w1]
  have tp: "truthy p" and pp: "p' = p" by auto
  from assms(2,3) pp have "store w2 (fiat_key (upper base)) = Some (t, p)" by simp
  from TTLCache_get_present [OF this, of 1800] assms(4)
  have "TTLCache_get (fiat_key (upper base)) 1800 w2 = (p, w2\<lparr>ticks := Suc (ticks w2)\<rparr>)"
    by simp
  from get_fiat_rates_hit [OF this tp] pp show ?thesis by simp
qed

lemma crypto_second_request:
  assumes "get_crypto_simple coins vs v = (Inr q, v1)"
    and "store v1 (crypto_key (map lower coins) (map lower vs)) = Some (u, q')"
    and "store v2 (crypto_key (map lower coins) (map lower vs))
           = store v1 (crypto_key (map lower coins) (map lower vs))"
    and "clock v2 (ticks v2) - u < 60"
  shows "q' = q \<and> get_crypto_simple coins vs v2 = (Inr q, v2\<lparr>ticks := Suc (ticks v2)\<rparr>)"
proof -
  from assms(1,2) get_crypto_simple_success_entry [of coins vs v q v1]
  have tq: "truthy q" and qq: "q' = q" by auto
  from assms(2,3) qq
  have "store v2 (crypto_key (map lower coins) (map lower vs)) = Some (u, q)" by simp
  from TTLCache_get_present [OF this, of 60] assms(4)
  have "TTLCache_get (crypto_key (map lower coins) (map lower vs)) 60 v2
          = (q, v2\<lparr>ticks := Suc (ticks v2)\<rparr>)"
    by simp
  from get_crypto_simple_hit [OF this tq] qq show ?thesis by simp
qed

lemma cold_crypto_btc:
  "get_crypto_simple [''Bitcoin''] [''USD''] cold_world =
     (Inr (JDict [(''data'', btc_prices), (''ts'', JInt 1000)]),
      cold_world\<lparr>store := [''cg:bitcoin|usd'' \<mapsto>
                   (1001, JDict [(''data'', btc_prices), (''ts'', JInt 1000)])],
                 ticks := 2,
                 fetches :=
        [''https://api.coingecko.com/api/v3/simple/price?ids=bitcoin&vs_currencies=usd'']\<rparr>)"
proof -
  have g: "TTLCache_get (crypto_key (map lower [''Bitcoin'']) (map lower [''USD''])) 60 cold_world
             = (JNull, cold_world)"
    by (simp add: TTLCache_get_absent cold_world_def)
  have l: "lower ''Bitcoin'' = ''bitcoin''" "lower ''USD'' = ''usd''"
    by code_simp+
  show ?thesis
    by (simp add: get_crypto_simple_miss [OF g])
       (simp add: l crypto_url_def crypto_key_def cold_world_def btc_prices_def py_int_def)
qed

lemma nonempty_dict_iff: "(is_dict v \<and> truthy v) = (\<exists>kvs. v = JDict kvs \<and> kvs \<noteq> [])"
  by (cases v) auto

lemma sort_cong_mset:
  fixes xs ys :: "string list"
  assumes "mset xs = mset ys"
  shows "sort xs = sort ys"
  using assms by (metis mset_sort properties_for_sort sorted_sort)

lemma upper_char_not_lower: "\<not> (CHR ''a'' \<le> upper_char c \<and> upper_char c \<le> CHR ''z'')"
proof -
  have "of_char (char_of (of_char c - (32::nat))) = (of_char c - (32::nat)) mod 256"
    by (rule of_char_of)
  then show ?thesis
    by (auto simp: upper_char_def less_eq_char_def)
qed

lemma lower_char_not_upper: "\<not> (CHR ''A'' \<le> lower_char c \<and> lower_char c \<le> CHR ''Z'')"
proof -
  have "of_char (char_of (of_char c + (32::nat))) = (of_char c + (32::nat)) mod 256"
    by (rule of_char_of)
  then show ?thesis
    by (auto simp: lower_char_def less_eq_char_def)
qed

lemma uppercased_upper: "uppercased (upper s)"
  using upper_char_not_lower by (auto simp: uppercased_def upper_def)

lemma lowercased_lower: "lowercased (lower s)"
  using lower_char_not_upper by (auto simp: lowercased_def lower_def)

lemma get_fiat_rates_writes:
  assumes "store (snd (get_fiat_rates base w)) k \<noteq> store w k"
  shows "k = fiat_key (upper base)"
proof -
  obtain c w0 where g: "TTLCache_get (fiat_key (upper base)) 1800 w = (c, w0)"
    by (cases "TTLCache_get (fiat_key (upper base)) 1800 w")
  note s = TTLCache_get_frame(1) [OF g]
  show ?thesis
  proof (cases "truthy c")
    case True
    with assms s show ?thesis by (simp add: get_fiat_rates_hit [OF g])
  next
    case False
    with assms s show ?thesis
      by (auto simp: get_fiat_rates_miss [OF g] split: option.splits sum.splits if_splits)
  qed
qed

lemma get_crypto_simple_writes:
  assumes "store (snd (get_crypto_simple coins vs w)) k \<noteq> store w k"
  shows "k = crypto_key (map lower coins) (map lower vs)"
proof -
  obtain c w0 where
    g: "TTLCache_get (crypto_key (map lower coins) (map lower vs)) 60 w = (c, w0)"
    by (cases "TTLCache_get (crypto_key (map lower coins) (map lower vs)) 60 w")
  note s = TTLCache_get_frame(1) [OF g]
  show ?thesis
  proof (cases "truthy c")
    case True
    with assms s show ?thesis by (simp add: get_crypto_simple_hit [OF g])
  next
    case False
    with assms s show ?thesis
      by (auto simp: get_crypto_simple_miss [OF g] split: option.splits if_splits)
  qed
qed

lemma cache_ok_store: "store w' = store w \<Longrightarrow> cache_ok w \<Longrightarrow> cache_ok w'"
  by (simp add: cache_ok_def)

lemma cache_ok_empty: "store w = Map.empty \<Longrightarrow> cache_ok w"
  by (simp add: cache_ok_def)

lemma fiat_payload_built:
  "fiat_payload (JDict [(''base'', JStr b), (''rates'', rates), (''ts'', JInt t)])"
  by (simp add: fiat_payload_def has_int_ts_def has_key_def)

lemma crypto_payload_built:
  "crypto_payload (JDict [(''data'', d), (''ts'', JInt t)])"
  by (simp add: crypto_payload_def has_int_ts_def has_key_def)

lemma cache_ok_update_fiat:
  assumes "cache_ok w" and "fiat_payload p"
    and "store w' = (store w)(fiat_key b \<mapsto> (t, p))"
  shows "cache_ok w'"
  using assms by (auto simp: cache_ok_def fiat_key_def)

lemma cache_ok_update_crypto:
  assumes "cache_ok w" and "crypto_payload p"
    and "store w' = (store w)(crypto_key cs vs \<mapsto> (t, p))"
  shows "cache_ok w'"
  using assms by (auto simp: cache_ok_def crypto_key_def)

lemma get_fiat_rates_cache_ok:
  assumes "cache_ok w"
  shows "cache_ok (snd (get_fiat_rates base w))"
proof -
  obtain c w0 where g: "TTLCache_get (fiat_key (upper base)) 1800 w = (c, w0)"
    by (cases "TTLCache_get (fiat_key (upper base)) 1800 w")
  have ok0: "cache_ok w0"
    using cache_ok_store [OF TTLCache_get_frame(1) [OF g] assms] .
  show ?thesis
  proof (cases "truthy c")
    case True
    with ok0 show ?thesis by (simp add: get_fiat_rates_hit [OF g])
  next
    case False
    show ?thesis
      unfolding get_fiat_rates_miss [OF g False]
      by (auto split: option.splits sum.splits
               intro: cache_ok_store [OF _ ok0]
                      cache_ok_update_fiat [OF ok0 fiat_payload_built])
  qed
qed

lemma get_crypto_simple_cache_ok:
  assumes "cache_ok w"
  shows "cache_ok (snd (get_crypto_simple coins vs w))"
proof -
  obtain c w0 where
    g: "TTLCache_get (crypto_key (map lower coins) (map lower vs)) 60 w = (c, w0)"
    by (cases "TTLCache_get (crypto_key (map lower coins) (map lower vs)) 60 w")
  have ok0: "cache_ok w0"
    using cache_ok_store [OF TTLCache_get_frame(1) [OF g] assms] .
  show ?thesis
  proof (cases "truthy c")
    case True
    with ok0 show ?thesis by (simp add: get_crypto_simple_hit [OF g])
  next
    case False
    show ?thesis
      unfolding get_crypto_simple_miss [OF g False]
      by (auto split: option.splits
               intro: cache_ok_store [OF _ ok0]
                      cache_ok_update_crypto [OF ok0 crypto_payload_built])
  qed
qed

lemma reachable_imp_cache_ok: "reachable w \<Longrightarrow> cache_ok w"
proof (induction rule: reachable.induct)
  case (start w)
  then show ?case by (rule cache_ok_empty)
next
  case (fiat w base)
  then show ?case by (simp add: get_fiat_rates_cache_ok)
next
  case (crypto w coins vs)
  then show ?case by (simp add: get_crypto_simple_cache_ok)
next
  case (env w w')
  then show ?case by (simp add: cache_ok_store)
qed

lemma split_not_Nil: "split sep s \<noteq> []"
  by (induction s) auto

lemma join_Cons_nonempty: "xs \<noteq> [] \<Longrightarrow> join sep (x # xs) = x @ sep @ join sep xs"
  by (cases xs) auto

lemma join_push_char: "join sep ((c # x) # xs) = c # join sep (x # xs)"
  by (cases xs) auto

lemma join_split: "join [sep] (split sep s) = s"
proof (induction s)
  case Nil
  show ?case by simp
next
  case (Cons c cs)
  have ne: "split sep cs \<noteq> []" by (rule split_not_Nil)
  then have r: "hd (split sep cs) # tl (split sep cs) = split sep cs" by simp
  show ?case
  proof (cases "c = sep")
    case True
    with Cons ne show ?thesis by (simp add: join_Cons_nonempty)
  next
    case False
    with Cons r show ?thesis by (simp add: join_push_char)
  qed
qed

lemma split_segment_chars:
  "seg \<in> set (split sep s) \<Longrightarrow> set seg \<subseteq> set s \<and> sep \<notin> set seg"
proof (induction s arbitrary: seg)
  case Nil
  then show ?case by simp
next
  case (Cons c cs)
  have ne: "split sep cs \<noteq> []" by (rule split_not_Nil)
  then have h: "hd (split sep cs) \<in> set (split sep cs)"
    and t: "set (tl (split sep cs)) \<subseteq> set (split sep cs)"
    by (auto dest: list.set_sel(2))
  show ?case
  proof (cases "c = sep")
    case True
    with Cons show ?thesis by auto
  next
    case False
    with Cons.prems have "seg = c # hd (split sep cs) \<or> seg \<in> set (tl (split sep cs))"
      by simp
    then show ?thesis
    proof
      assume "seg = c # hd (split sep cs)"
      with Cons.IH [OF h] False show ?thesis by auto
    next
      assume "seg \<in> set (tl (split sep cs))"
      with t have "seg \<in> set (split sep cs)" by blast
      from Cons.IH [OF this] show ?thesis by auto
    qed
  qed
qed

lemma strip_all_space: "\<forall>c \<in> set s. is_space c \<Longrightarrow> strip s = []"
  by (auto simp: strip_def dropWhile_eq_Nil_conv dest: set_dropWhileD)

lemma rev_dropWhile_takeWhile:
  "rev (dropWhile P (rev xs)) @ rev (takeWhile P (rev xs)) = xs"
proof -
  have "rev (takeWhile P (rev xs) @ dropWhile P (rev xs)) = rev (rev xs)"
    by (simp only: takeWhile_dropWhile_id)
  then show ?thesis by (simp only: rev_append rev_rev_ident)
qed

lemma last_dropWhile:
  assumes "dropWhile P xs \<noteq> []"
  shows "last (dropWhile P xs) = last xs"
proof -
  from assms have "last (takeWhile P xs @ dropWhile P xs) = last (dropWhile P xs)"
    by (rule last_appendR)
  then show ?thesis by (simp only: takeWhile_dropWhile_id)
qed

lemma strip_decomp:
  "\<exists>l r. s = l @ strip s @ r \<and> (\<forall>c \<in> set l. is_space c) \<and> (\<forall>c \<in> set r. is_space c)"
proof (intro exI conjI)
  show "s = takeWhile is_space s @ strip s
              @ rev (takeWhile is_space (rev (dropWhile is_space s)))"
    unfolding strip_def rev_dropWhile_takeWhile by (simp only: takeWhile_dropWhile_id)
  show "\<forall>c \<in> set (takeWhile is_space s). is_space c"
    by (auto dest: set_takeWhileD)
  show "\<forall>c \<in> set (rev (takeWhile is_space (rev (dropWhile is_space s)))). is_space c"
    by (auto dest: set_takeWhileD)
qed

lemma strip_subset: "set (strip s) \<subseteq> set s"
  by (auto simp: strip_def dest!: set_dropWhileD)

lemma strip_ends:
  assumes "strip s \<noteq> []"
  shows "\<not> is_space (hd (strip s)) \<and> \<not> is_space (last (strip s))"
proof -
  define d where "d = dropWhile is_space s"
  define e where "e = dropWhile is_space (rev d)"
  from assms have e: "e \<noteq> []" by (simp add: strip_def e_def d_def)
  have d: "d \<noteq> []"
  proof
    assume "d = []"
    then have "e = []" by (simp add: e_def)
    with e show False by simp
  qed
  have st: "strip s = rev e" by (simp add: strip_def e_def d_def)
  have "\<not> is_space (hd e)" using e unfolding e_def by (rule hd_dropWhile)
  with e st have a: "\<not> is_space (last (strip s))" by (simp add: last_rev)
  have "last e = last (rev d)" using e unfolding e_def by (rule last_dropWhile)
  with d have "last e = hd d" by (simp add: last_rev)
  with e st have "hd (strip s) = hd d" by (simp add: hd_rev)
  moreover have "\<not> is_space (hd d)" using d unfolding d_def by (rule hd_dropWhile)
  ultimately show ?thesis using a by simp
qed

lemma csv_list_elements:
  assumes "x \<in> set (csv_list s)"
  shows "x \<noteq> [] \<and> CHR '','' \<notin> set x \<and> \<not> is_space (hd x) \<and> \<not> is_space (last x)"
proof -
  from assms obtain seg where seg: "seg \<in> set (split CHR '','' s)"
    and x: "x = strip seg" and ne: "strip seg \<noteq> []"
    by (auto simp: csv_list_def)
  from split_segment_chars [OF seg] strip_subset [of seg]
  have "CHR '','' \<notin> set (strip seg)" by blast
  with x ne strip_ends [OF ne] show ?thesis by simp
qed

lemma segment_chars_satisfy:
  assumes "\<forall>c \<in> set s. c = sep \<or> P c" and "seg \<in> set (split sep s)"
  shows "\<forall>c \<in> set seg. P c"
proof
  fix c assume c: "c \<in> set seg"
  from split_segment_chars [OF assms(2)] c have "c \<in> set s" and "c \<noteq> sep" by auto
  with assms(1) show "P c" by auto
qed

lemma csv_list_all_empty:
  assumes "\<forall>c \<in> set s. c = CHR '','' \<or> is_space c"
  shows "csv_list s = []"
proof -
  have "strip seg = []" if "seg \<in> set (split CHR '','' s)" for seg
    using segment_chars_satisfy [OF assms that] by (rule strip_all_space)
  then have "filter (\<lambda>seg. strip seg \<noteq> []) (split CHR '','' s) = []"
    unfolding filter_empty_conv by blast
  then show ?thesis unfolding csv_list_def by simp
qed

lemma csv_list_example: "csv_list ''bitcoin, ,ethereum,'' = [''bitcoin'', ''ethereum'']"
  by code_simp

subsection \<open>Floating point\<close>

text \<open>The bits of a number, and the integers that are too large for a float.\<close>

lemma bit_length_upper: "n < 2 ^ bit_length n"
proof (induction n rule: bit_length.induct)
  case (1 n)
  show ?case
  proof (cases "n = 0")
    case True
    then show ?thesis by (simp add: bit_length.simps)
  next
    case False
    with 1 have "n div 2 < 2 ^ bit_length (n div 2)" by simp
    then have "n < 2 * 2 ^ bit_length (n div 2)" by linarith
    with False show ?thesis by (subst bit_length.simps) simp
  qed
qed

lemma bit_length_lower: "n \<noteq> 0 \<Longrightarrow> 2 ^ (bit_length n - 1) \<le> n"
proof (induction n rule: bit_length.induct)
  case (1 n)
  from "1.prems" have bl: "bit_length n = Suc (bit_length (n div 2))"
    by (subst bit_length.simps) simp
  show ?case
  proof (cases "n div 2 = 0")
    case True
    then have "bit_length (n div 2) = 0" by (simp add: bit_length.simps)
    with bl "1.prems" show ?thesis by simp
  next
    case False
    then have pos: "bit_length (n div 2) \<noteq> 0" by (subst bit_length.simps) simp
    from "1.IH" [OF "1.prems" False]
    have "2 * 2 ^ (bit_length (n div 2) - 1) \<le> 2 * (n div 2)" by simp
    also have "\<dots> \<le> n" by simp
    finally have "2 ^ Suc (bit_length (n div 2) - 1) \<le> n" by simp
    with pos bl show ?thesis by simp
  qed
qed

lemma bit_length_greater:
  assumes "2 ^ k \<le> n"
  shows "k < bit_length n"
proof -
  from assms bit_length_upper [of n] have "(2::nat) ^ k < 2 ^ bit_length n" by linarith
  then show ?thesis by simp
qed

lemma finish_double_overflow:
  assumes "2 ^ 52 \<le> m" and "972 \<le> k"
  shows "finish_double s m (int k) = Infinite s"
proof -
  from bit_length_greater [OF assms(1)] have "52 < bit_length m" .
  with assms(2) have "1024 < int (bit_length m) + int k" by simp
  moreover from assms(1) have "m \<noteq> 0" by auto
  ultimately show ?thesis by (simp add: finish_double_def)
qed

lemma round_double_overflow:
  assumes "2 ^ 1024 \<le> m"
  shows "round_double s m 0 = Infinite s"
proof -
  define k where "k = bit_length m - 53"
  from bit_length_greater [OF assms] have b: "1024 < bit_length m" .
  then have k: "972 \<le> k" and bk: "bit_length m - 1 = k + 52" by (simp_all add: k_def)
  have shift: "max (int (bit_length m) - 53) (- 1074 - 0) = int k"
    using b by (simp add: k_def)
  from assms have "m \<noteq> 0" by auto
  from bit_length_lower [OF this] bk have "2 ^ 52 * 2 ^ k \<le> m"
    by (simp add: power_add mult.commute)
  then have "(2 ^ 52 * 2 ^ k) div 2 ^ k \<le> m div 2 ^ k" by (rule div_le_mono)
  then have f: "2 ^ 52 \<le> m div 2 ^ k" by simp
  then have f1: "2 ^ 52 \<le> m div 2 ^ k + 1" by simp
  from k have kpos: "\<not> int k \<le> 0" by simp
  show ?thesis
    unfolding round_double_def shift Let_def
    using kpos finish_double_overflow [OF f k, of s] finish_double_overflow [OF f1 k, of s]
    by simp
qed

lemma int_to_float_overflow:
  assumes "2 ^ 1024 \<le> \<bar>i\<bar>"
  shows "int_to_float i = Inl OverflowError"
proof -
  from assms have "2 ^ 1024 \<le> nat \<bar>i\<bar>"
    by (simp add: le_nat_iff)
  from round_double_overflow [OF this] show ?thesis by (simp add: int_to_float_def)
qed

lemma int_to_float_huge_rate: "int_to_float huge_rate = Inl OverflowError"
  by (rule int_to_float_overflow) (simp add: huge_rate_def)

lemmas double_eval =
  round_double_def finish_double_def bit_length.simps trim_even.simps Let_def int_to_float_def

lemma int_to_float_bool:
  "int_to_float 0 = Inr (Finite False 0 0)" "int_to_float 1 = Inr (Finite False 1 0)"
  by (simp_all add: double_eval)

lemma int_to_float_1500: "int_to_float 1500 = Inr (Finite False 375 2)"
  by (simp add: double_eval)

lemma float_mul_100_1500:
  "float_mul (Finite False 25 2) (Finite False 375 2) = Finite False 9375 4"
  by (simp add: double_eval)

lemma float_mul_tenth_3:
  "float_mul (Finite False 3602879701896397 (- 55)) (Finite False 3 0)
     = Finite False 1351079888211149 (- 52)"
  by (simp add: double_eval)

lemma float_mul_examples:
  "float_mul (Finite False 156575653125701 976) (Finite False 5 1) = Infinite False"
  "float_mul (Finite False 1 (- 1074)) (Finite True 1 (- 1)) = Finite True 0 0"
  "float_mul (Finite False 1 (- 1074)) (Finite False 3 (- 1)) = Finite False 1 (- 1073)"
  "float_mul (Finite True 0 0) (Finite False 3 0) = Finite True 0 0"
  "float_mul (Infinite False) (Finite True 0 0) = NaN"
  "int_to_float 3 = Inr (Finite False 3 0)"
  "int_to_float (2 ^ 53 + 1) = Inr (Finite False 1 53)"
  "int_to_float (- (2 ^ 53 + 3)) = Inr (Finite True 2251799813685249 2)"
  by (simp_all add: double_eval)

lemma cold_fiat_huge:
  "get_fiat_rates ''usd'' huge_rate_world =
     (Inr (JDict [(''base'', JStr ''USD''), (''rates'', JDict [(''NGN'', JInt huge_rate)]),
                  (''ts'', JInt 1000)]),
      huge_rate_world\<lparr>store := [''fx:USD'' \<mapsto>
                   (1001, JDict [(''base'', JStr ''USD''),
                                 (''rates'', JDict [(''NGN'', JInt huge_rate)]),
                                 (''ts'', JInt 1000)])],
                 ticks := 2,
                 fetches := [''https://api.exchangerate.host/latest?base=USD'']\<rparr>)"
proof -
  have g: "TTLCache_get (fiat_key (upper ''usd'')) 1800 huge_rate_world = (JNull, huge_rate_world)"
    by (simp add: TTLCache_get_absent huge_rate_world_def)
  show ?thesis
    by (simp add: get_fiat_rates_miss [OF g])
       (simp add: upper_usd fiat_key_def fiat_url_def huge_rate_world_def py_int_def)
qed

section \<open>The TTL cache: reads\<close>

text \<open>
  C1. \<^verbatim>\<open>TTLCache.get(key, max_age)\<close> returns the stored payload when the store has an
  entry for the key whose age, the clock reading minus the entry's timestamp, is less
  than \<open>max_age\<close>; in every other case it returns \<^verbatim>\<open>None\<close>. The read leaves the store
  as it was, so a stale entry stays.
\<close>

theorem TTLCache_get_fresh_iff:
  "(\<forall>ts data. store w key = Some (ts, data) \<and> clock w (ticks w) - ts < real_of_int max_age
       \<longrightarrow> fst (TTLCache_get key max_age w) = data)
   \<and> ((\<nexists>ts data. store w key = Some (ts, data) \<and> clock w (ticks w) - ts < real_of_int max_age)
       \<longrightarrow> fst (TTLCache_get key max_age w) = JNull)
   \<and> store (snd (TTLCache_get key max_age w)) = store w"
  by (cases "store w key") (auto simp: TTLCache_get_def time_time_def)

theorem TTLCache_get_fresh_iff_witness:
  "fst (TTLCache_get ''fx:USD'' 1800 warm_world) = usd_payload
   \<and> fst (TTLCache_get ''fx:USD'' 60 warm_world) = JNull
   \<and> fst (TTLCache_get ''fx:EUR'' 1800 warm_world) = JNull
   \<and> store (snd (TTLCache_get ''fx:USD'' 60 warm_world)) ''fx:USD'' = Some (1001, usd_payload)"
  using TTLCache_get_fresh_iff [of warm_world "''fx:USD''" 1800]
        TTLCache_get_fresh_iff [of warm_world "''fx:USD''" 60]
        TTLCache_get_fresh_iff [of warm_world "''fx:EUR''" 1800]
  by (simp add: warm_world_def)

section \<open>Failures are not cached\<close>

text \<open>
  C4. When \<^verbatim>\<open>get_fiat_rates\<close> or \<^verbatim>\<open>get_crypto_simple\<close> ends with an exception, whether
  raised by the fetch, by the check of the body or by Python on a body of the wrong
  shape, the store of the cache is the one the call started with.
\<close>

theorem failed_request_writes_nothing:
  "(\<forall>e. fst (get_fiat_rates base w) = Inl e \<longrightarrow> store (snd (get_fiat_rates base w)) = store w)
   \<and> (\<forall>e. fst (get_crypto_simple coins vs w) = Inl e
         \<longrightarrow> store (snd (get_crypto_simple coins vs w)) = store w)"
  using get_fiat_rates_failure_store get_crypto_simple_failure_store by blast

theorem failed_request_writes_nothing_witness:
  "fst (get_fiat_rates ''eur'' cold_world) = Inl UpstreamError
   \<and> store (snd (get_fiat_rates ''eur'' cold_world)) = store cold_world
   \<and> fst (get_crypto_simple [''nocoin''] [''usd''] cold_world)
       = Inl (HTTPException 502 ''No crypto data'')
   \<and> store (snd (get_crypto_simple [''nocoin''] [''usd''] cold_world)) = store cold_world"
proof -
  have f: "fst (get_fiat_rates ''eur'' cold_world) = Inl UpstreamError"
    by (simp add: cold_fiat_eur)
  have c: "fst (get_crypto_simple [''nocoin''] [''usd''] cold_world)
             = Inl (HTTPException 502 ''No crypto data'')"
    by (simp add: cold_crypto_nocoin)
  from f c failed_request_writes_nothing [of "''eur''" cold_world "[''nocoin'']" "[''usd'']"]
  show ?thesis by blast
qed

section \<open>Repeated requests\<close>

text \<open>
  C5. After a request to \<^verbatim>\<open>get_fiat_rates\<close> (or \<^verbatim>\<open>get_crypto_simple\<close>) has returned a
  payload \<open>p\<close>, the cache holds \<open>p\<close> under the request's key with some timestamp \<open>t\<close>.
  The same request, made in any later world that still has this entry and whose clock
  reads less than \<open>t + 1800\<close> (or \<open>t + 60\<close>), returns the same \<open>p\<close>, with the same
  \<^verbatim>\<open>ts\<close> inside, and changes nothing but the count of clock readings: the log of
  upstream requests and the store are as before.
\<close>

theorem repeated_request_served_from_cache:
  "(get_fiat_rates base w = (Inr p, w1)
      \<and> store w1 (fiat_key (upper base)) = Some (t, p')
      \<and> store w2 (fiat_key (upper base)) = store w1 (fiat_key (upper base))
      \<and> clock w2 (ticks w2) - t < 1800
    \<longrightarrow> p' = p \<and> get_fiat_rates base w2 = (Inr p, w2\<lparr>ticks := Suc (ticks w2)\<rparr>))
   \<and> (get_crypto_simple coins vs v = (Inr q, v1)
      \<and> store v1 (crypto_key (map lower coins) (map lower vs)) = Some (u, q')
      \<and> store v2 (crypto_key (map lower coins) (map lower vs))
          = store v1 (crypto_key (map lower coins) (map lower vs))
      \<and> clock v2 (ticks v2) - u < 60
    \<longrightarrow> q' = q \<and> get_crypto_simple coins vs v2 = (Inr q, v2\<lparr>ticks := Suc (ticks v2)\<rparr>))"
  using fiat_second_request [of base w p w1 t p' w2]
        crypto_second_request [of coins vs v q v1 u q' v2]
  by blast

theorem repeated_request_served_from_cache_witness:
  "get_fiat_rates ''usd'' (snd (get_fiat_rates ''usd'' cold_world))
     = (Inr usd_payload,
        (snd (get_fiat_rates ''usd'' cold_world))\<lparr>ticks := 3\<rparr>)
   \<and> fst (get_fiat_rates ''usd'' cold_world) = Inr usd_payload
   \<and> fetches (snd (get_fiat_rates ''usd'' (snd (get_fiat_rates ''usd'' cold_world))))
       = [''https://api.exchangerate.host/latest?base=USD'']
   \<and> get_crypto_simple [''Bitcoin''] [''USD'']
        (snd (get_crypto_simple [''Bitcoin''] [''USD''] cold_world))
     = (Inr (JDict [(''data'', btc_prices), (''ts'', JInt 1000)]),
        (snd (get_crypto_simple [''Bitcoin''] [''USD''] cold_world))\<lparr>ticks := 3\<rparr>)"
proof -
  let ?w1 = "snd (get_fiat_rates ''usd'' cold_world)"
  let ?v1 = "snd (get_crypto_simple [''Bitcoin''] [''USD''] cold_world)"
  let ?q = "JDict [(''data'', btc_prices), (''ts'', JInt 1000)]"
  have l: "lower ''Bitcoin'' = ''bitcoin''" "lower ''USD'' = ''usd''"
    by code_simp+
  have f1: "get_fiat_rates ''usd'' cold_world = (Inr usd_payload, ?w1)"
    by (simp add: cold_fiat_usd)
  have f2: "store ?w1 (fiat_key (upper ''usd'')) = Some (1001, usd_payload)"
    by (simp add: cold_fiat_usd upper_usd fiat_key_def)
  have f3: "clock ?w1 (ticks ?w1) - 1001 < 1800"
    unfolding cold_fiat_usd by (simp add: cold_world_def)
  have c1: "get_crypto_simple [''Bitcoin''] [''USD''] cold_world = (Inr ?q, ?v1)"
    by (simp add: cold_crypto_btc)
  have c2: "store ?v1 (crypto_key (map lower [''Bitcoin'']) (map lower [''USD'']))
              = Some (1001, ?q)"
    by (simp add: cold_crypto_btc l crypto_key_def)
  have c3: "clock ?v1 (ticks ?v1) - 1001 < 60"
    unfolding cold_crypto_btc by (simp add: cold_world_def)
  from repeated_request_served_from_cache
         [of "''usd''" cold_world usd_payload ?w1 1001 usd_payload ?w1
             "[''Bitcoin'']" "[''USD'']" cold_world ?q ?v1 1001 ?q ?v1]
       f1 f2 f3 c1 c2 c3
  have r: "get_fiat_rates ''usd'' ?w1 = (Inr usd_payload, ?w1\<lparr>ticks := Suc (ticks ?w1)\<rparr>)"
          "get_crypto_simple [''Bitcoin''] [''USD''] ?v1
             = (Inr ?q, ?v1\<lparr>ticks := Suc (ticks ?v1)\<rparr>)"
    by blast+
  have t: "Suc (ticks ?w1) = 3" "Suc (ticks ?v1) = 3"
    by (simp_all add: cold_fiat_usd cold_crypto_btc)
  have fl: "fetches ?w1 = [''https://api.exchangerate.host/latest?base=USD'']"
    by (simp add: cold_fiat_usd)
  have f0: "fst (get_fiat_rates ''usd'' cold_world) = Inr usd_payload"
    by (simp add: cold_fiat_usd)
  from r t fl f0 show ?thesis by simp
qed

section \<open>The conversion\<close>

text \<open>
  C2, as stated, for every rate in the rates mapping: when the provider quotes the
  integer \<open>10 ^ 309\<close> for NGN, the target is present in the fetched rates mapping, and
  \<^verbatim>\<open>/fx\<close> with the amount 2.0 ends with the \<^verbatim>\<open>OverflowError\<close> of \<^verbatim>\<open>amount * rate\<close>: it
  returns no dict.
\<close>

theorem fx_huge_rate_counterexample:
  "fst (get_fiat_rates ''usd'' huge_rate_world)
     = Inr (JDict [(''base'', JStr ''USD''), (''rates'', JDict [(''NGN'', JInt huge_rate)]),
                   (''ts'', JInt 1000)])
   \<and> map_of [(''NGN'', JInt huge_rate)] (upper ''ngn'') = Some (JInt huge_rate)
   \<and> huge_rate = 10 ^ 309
   \<and> fst (fx ''usd'' ''ngn'' (Finite False 1 1) huge_rate_world) = Inl OverflowError"
proof -
  have "fst (fx ''usd'' ''ngn'' (Finite False 1 1) huge_rate_world) = Inl OverflowError"
    by (simp add: fx_def cold_fiat_huge upper_ngn int_to_float_huge_rate)
  then show ?thesis
    by (simp add: cold_fiat_huge upper_ngn huge_rate_def)
qed

text \<open>
  C2, amended. When \<^verbatim>\<open>get_fiat_rates\<close> has returned a payload whose \<^verbatim>\<open>"rates"\<close> is a
  mapping that holds, under the uppercased target, a float or an integer that converts to
  a float without overflow, \<^verbatim>\<open>/fx\<close> returns the dict with the uppercased base and target,
  that rate, the amount, the floating-point product of the amount and the rate as the
  result, and the \<^verbatim>\<open>"ts"\<close> of the payload, which is the payload the cache holds for the
  base: the time of the conversion does not enter the answer. With the amount 100 and
  the rate 1500 the result is 150000.
\<close>

theorem fx_converts:
  assumes "get_fiat_rates base w = (Inr data, w1)"
    and "py_getitem data ''rates'' = Inr (JDict rates)"
    and "map_of rates (upper to) = Some rate"
    and "num_of rate = Some r"
    and "py_getitem data ''ts'' = Inr ts"
  shows "fx base to amount w =
           (Inr (JDict [(''base'', JStr (upper base)), (''to'', JStr (upper to)),
                        (''rate'', rate), (''amount'', JFloat amount),
                        (''result'', JFloat (float_mul amount r)), (''ts'', ts)]), w1)
         \<and> (\<exists>t. store w1 (fiat_key (upper base)) = Some (t, data))"
proof -
  from assms(3) have c: "upper to \<in> fst ` set rates"
    by (metis map_of_eq_None_iff option.distinct(1))
  from assms(4) have m: "py_float_mul amount rate = Inr (float_mul amount r)"
    by (cases rate) (auto simp: int_to_float_bool split: sum.splits)
  have "fx base to amount w =
           (Inr (JDict [(''base'', JStr (upper base)), (''to'', JStr (upper to)),
                        (''rate'', rate), (''amount'', JFloat amount),
                        (''result'', JFloat (float_mul amount r)), (''ts'', ts)]), w1)"
    by (simp add: fx_def Let_def assms(1,2,3,5) c m)
  with get_fiat_rates_success_entry [OF assms(1)] show ?thesis by simp
qed

theorem fx_converts_witness:
  "fx ''usd'' ''ngn'' (Finite False 25 2) warm_world =
     (Inr (JDict [(''base'', JStr ''USD''), (''to'', JStr ''NGN''), (''rate'', JInt 1500),
                  (''amount'', JFloat (Finite False 25 2)),
                  (''result'', JFloat (Finite False 9375 4)), (''ts'', JInt 1000)]),
      warm_world\<lparr>ticks := 3\<rparr>)
   \<and> float_val (Finite False 25 2) = 100
   \<and> float_val (Finite False 9375 4) = 150000
   \<and> clock warm_world (ticks warm_world) = 1102"
proof -
  have r: "py_getitem usd_payload ''rates'' = Inr (JDict [(''NGN'', JInt 1500)])"
    and t: "py_getitem usd_payload ''ts'' = Inr (JInt 1000)"
    by (simp_all add: usd_payload_def)
  have m: "map_of [(''NGN'', JInt 1500)] (upper ''ngn'') = Some (JInt 1500)"
    by (simp add: upper_ngn)
  have n: "num_of (JInt 1500) = Some (Finite False 375 2)"
    by (simp add: int_to_float_1500)
  have v: "float_val (Finite False 25 2) = 100" "float_val (Finite False 9375 4) = 150000"
    by (simp_all add: float_val_def)
  from fx_converts [OF warm_fiat_usd r m n t, of "Finite False 25 2"] v
  show ?thesis by (simp add: upper_usd upper_ngn warm_world_def double_eval)
qed

text \<open>
  C6. When \<^verbatim>\<open>get_fiat_rates\<close> has returned a payload whose \<^verbatim>\<open>"rates"\<close> is a mapping
  without the uppercased target, \<^verbatim>\<open>/fx\<close> raises the \<^verbatim>\<open>HTTPException\<close> with status 400:
  no other exception, and no answer.
\<close>

theorem fx_unsupported_target:
  assumes "get_fiat_rates base w = (Inr data, w1)"
    and "py_getitem data ''rates'' = Inr (JDict rates)"
    and "upper to \<notin> fst ` set rates"
  shows "fx base to amount w =
           (Inl (HTTPException 400 (''Unsupported target: '' @ upper to)), w1)"
  using assms by (simp add: fx_def Let_def)

theorem fx_unsupported_target_witness:
  "fx ''usd'' ''zzz'' (Finite False 1 0) warm_world =
     (Inl (HTTPException 400 ''Unsupported target: ZZZ''), warm_world\<lparr>ticks := 3\<rparr>)"
proof -
  have r: "py_getitem usd_payload ''rates'' = Inr (JDict [(''NGN'', JInt 1500)])"
    by (simp add: usd_payload_def)
  have a: "upper ''zzz'' \<notin> fst ` set [(''NGN'', JInt 1500)]"
    by (simp add: upper_zzz)
  from fx_unsupported_target [OF warm_fiat_usd r a, of "Finite False 1 0"]
  show ?thesis by (simp add: upper_zzz)
qed

section \<open>Empty answers of the price provider\<close>

text \<open>
  C7. On a cache miss (the cache returns nothing, or nothing that counts as true),
  \<^verbatim>\<open>get_crypto_simple\<close> raises the \<^verbatim>\<open>HTTPException\<close> with status 502 exactly when the
  provider has answered with a body that is not a dict with at least one key. When it
  returns a payload, the \<^verbatim>\<open>"data"\<close> of the payload is the body, a dict that is not empty.
\<close>

theorem crypto_miss_bad_gateway:
  assumes "\<not> truthy (fst (TTLCache_get (crypto_key (map lower coins) (map lower vs)) 60 w))"
  shows "(fst (get_crypto_simple coins vs w) = Inl (HTTPException 502 ''No crypto data'')
            \<longleftrightarrow> (\<exists>body. upstream w (length (fetches w))
                            (crypto_url (map lower coins) (map lower vs)) = Some body
                        \<and> \<not> (\<exists>kvs. body = JDict kvs \<and> kvs \<noteq> [])))
         \<and> (\<forall>p. fst (get_crypto_simple coins vs w) = Inr p
               \<longrightarrow> (\<exists>kvs t. kvs \<noteq> [] \<and> p = JDict [(''data'', JDict kvs), (''ts'', JInt t)]
                     \<and> upstream w (length (fetches w))
                          (crypto_url (map lower coins) (map lower vs)) = Some (JDict kvs)))"
proof -
  obtain c w0 where
    g: "TTLCache_get (crypto_key (map lower coins) (map lower vs)) 60 w = (c, w0)"
    by (cases "TTLCache_get (crypto_key (map lower coins) (map lower vs)) 60 w")
  with assms have nt: "\<not> truthy c" by simp
  note fr = TTLCache_get_frame(2,3) [OF g]
  show ?thesis
  proof (cases "upstream w (length (fetches w)) (crypto_url (map lower coins) (map lower vs))")
    case None
    then show ?thesis by (simp add: get_crypto_simple_miss [OF g nt] fr)
  next
    case (Some body)
    then show ?thesis
      using nonempty_dict_iff [of body]
      by (auto simp: get_crypto_simple_miss [OF g nt] fr)
  qed
qed

theorem crypto_miss_bad_gateway_witness:
  "fst (get_crypto_simple [''nocoin''] [''usd''] cold_world)
     = Inl (HTTPException 502 ''No crypto data'')
   \<and> fst (get_crypto_simple [''Bitcoin''] [''USD''] cold_world)
       \<noteq> Inl (HTTPException 502 ''No crypto data'')"
proof -
  have l: "lower ''nocoin'' = ''nocoin''" "lower ''usd'' = ''usd''"
          "lower ''Bitcoin'' = ''bitcoin''" "lower ''USD'' = ''usd''"
    by code_simp+
  have m1: "\<not> truthy (fst (TTLCache_get
              (crypto_key (map lower [''nocoin'']) (map lower [''usd''])) 60 cold_world))"
    by (simp add: TTLCache_get_absent cold_world_def)
  have u1: "upstream cold_world (length (fetches cold_world))
              (crypto_url (map lower [''nocoin'']) (map lower [''usd''])) = Some (JDict [])"
    by (simp add: l crypto_url_def cold_world_def)
  have m2: "\<not> truthy (fst (TTLCache_get
              (crypto_key (map lower [''Bitcoin'']) (map lower [''USD''])) 60 cold_world))"
    by (simp add: TTLCache_get_absent cold_world_def)
  have u2: "upstream cold_world (length (fetches cold_world))
              (crypto_url (map lower [''Bitcoin'']) (map lower [''USD''])) = Some btc_prices"
    by (simp add: l crypto_url_def cold_world_def)
  from crypto_miss_bad_gateway [OF m1] u1
  have a: "fst (get_crypto_simple [''nocoin''] [''usd''] cold_world)
             = Inl (HTTPException 502 ''No crypto data'')"
    by simp
  from crypto_miss_bad_gateway [OF m2] u2
  have b: "fst (get_crypto_simple [''Bitcoin''] [''USD''] cold_world)
             \<noteq> Inl (HTTPException 502 ''No crypto data'')"
    by (simp add: btc_prices_def)
  from a b show ?thesis by simp
qed

section \<open>Cache keys\<close>

text \<open>
  C3, as stated, for lists that are equal as sets: the request for the coins
  \<^verbatim>\<open>bitcoin,bitcoin\<close> and the request for \<^verbatim>\<open>bitcoin\<close> have the same set of coins and get
  different keys, since sorting keeps duplicates.
\<close>

theorem crypto_key_duplicates_counterexample:
  "set (map lower [''bitcoin'', ''bitcoin'']) = set (map lower [''bitcoin''])
   \<and> crypto_key (map lower [''bitcoin'', ''bitcoin'']) (map lower [''usd''])
       = ''cg:bitcoin,bitcoin|usd''
   \<and> crypto_key (map lower [''bitcoin'']) (map lower [''usd'']) = ''cg:bitcoin|usd''
   \<and> crypto_key (map lower [''bitcoin'', ''bitcoin'']) (map lower [''usd''])
       \<noteq> crypto_key (map lower [''bitcoin'']) (map lower [''usd''])"
  by code_simp

text \<open>
  C3, amended. Two crypto requests whose lowercased coin lists are permutations of each
  other (equal as multisets) and whose lowercased currency lists are permutations of
  each other get the same cache key from \<^verbatim>\<open>get_crypto_simple\<close>, and so the same answer
  from the cache.
\<close>

theorem crypto_key_permutation_invariant:
  assumes "mset (map lower coins1) = mset (map lower coins2)"
    and "mset (map lower vs1) = mset (map lower vs2)"
  shows "crypto_key (map lower coins1) (map lower vs1)
           = crypto_key (map lower coins2) (map lower vs2)
         \<and> TTLCache_get (crypto_key (map lower coins1) (map lower vs1)) 60 w
           = TTLCache_get (crypto_key (map lower coins2) (map lower vs2)) 60 w"
  using sort_cong_mset [OF assms(1)] sort_cong_mset [OF assms(2)]
  by (simp add: crypto_key_def)

theorem crypto_key_permutation_invariant_witness:
  "crypto_key (map lower [''ethereum'', ''bitcoin'']) (map lower [''ngn'', ''usd''])
     = crypto_key (map lower [''Bitcoin'', ''ETHEREUM'']) (map lower [''USD'', ''ngn''])"
proof -
  have l: "map lower [''ethereum'', ''bitcoin''] = [''ethereum'', ''bitcoin'']"
          "map lower [''Bitcoin'', ''ETHEREUM''] = [''bitcoin'', ''ethereum'']"
          "map lower [''ngn'', ''usd''] = [''ngn'', ''usd'']"
          "map lower [''USD'', ''ngn''] = [''usd'', ''ngn'']"
    by code_simp+
  have a: "mset (map lower [''ethereum'', ''bitcoin''])
             = mset (map lower [''Bitcoin'', ''ETHEREUM''])"
    unfolding l by (simp add: add_mset_commute)
  have b: "mset (map lower [''ngn'', ''usd'']) = mset (map lower [''USD'', ''ngn''])"
    unfolding l by (simp add: add_mset_commute)
  from crypto_key_permutation_invariant [OF a b] show ?thesis by simp
qed

text \<open>
  C8, as stated, for the currency codes of a crypto request: the request for
  \<^verbatim>\<open>Bitcoin\<close> in \<^verbatim>\<open>USD\<close> is stored under the key with the currency code lowercased; the key
  with the code uppercased has no entry.
\<close>

theorem crypto_key_lowercases_vs_counterexample:
  "crypto_key (map lower [''Bitcoin'']) (map lower [''USD'']) = ''cg:bitcoin|usd''
   \<and> crypto_key_upper_vs [''Bitcoin''] [''USD''] = ''cg:bitcoin|USD''
   \<and> store (snd (get_crypto_simple [''Bitcoin''] [''USD''] cold_world)) ''cg:bitcoin|usd''
       = Some (1001, JDict [(''data'', btc_prices), (''ts'', JInt 1000)])
   \<and> store (snd (get_crypto_simple [''Bitcoin''] [''USD''] cold_world)) ''cg:bitcoin|USD''
       = None"
proof -
  have "crypto_key (map lower [''Bitcoin'']) (map lower [''USD'']) = ''cg:bitcoin|usd''"
    by code_simp
  moreover have "crypto_key_upper_vs [''Bitcoin''] [''USD''] = ''cg:bitcoin|USD''"
    by code_simp
  moreover have "store cold_world ''cg:bitcoin|USD'' = None"
    by (simp add: cold_world_def)
  ultimately show ?thesis
    by (simp add: cold_crypto_btc)
qed

text \<open>
  C8, amended. The only key \<^verbatim>\<open>get_fiat_rates\<close> writes to is \<^verbatim>\<open>fx:\<close> followed by the
  uppercased base, which has no lowercase letter. The only key \<^verbatim>\<open>get_crypto_simple\<close>
  writes to is \<^verbatim>\<open>cg:\<close>, the sorted lowercased coin ids joined by commas, a bar, and the
  sorted lowercased currency codes joined by commas; no lowercased coin id or currency
  code has an uppercase letter.
\<close>

theorem cache_keys_normalized:
  "(\<forall>k. store (snd (get_fiat_rates base w)) k \<noteq> store w k \<longrightarrow> k = ''fx:'' @ upper base)
   \<and> uppercased (upper base)
   \<and> (\<forall>k. store (snd (get_crypto_simple coins vs w)) k \<noteq> store w k \<longrightarrow>
          k = ''cg:'' @ join '','' (sort (map lower coins))
              @ ''|'' @ join '','' (sort (map lower vs)))
   \<and> (\<forall>c \<in> set coins. lowercased (lower c))
   \<and> (\<forall>v \<in> set vs. lowercased (lower v))"
  using get_fiat_rates_writes [of base w] get_crypto_simple_writes [of coins vs w]
        uppercased_upper lowercased_lower
  by (simp add: fiat_key_def crypto_key_def)

theorem cache_keys_normalized_witness:
  "''fx:USD'' = ''fx:'' @ upper ''usd''
   \<and> uppercased (upper ''usd'')
   \<and> ''cg:bitcoin|usd'' = ''cg:'' @ join '','' (sort (map lower [''Bitcoin'']))
                            @ ''|'' @ join '','' (sort (map lower [''USD'']))
   \<and> lowercased (lower ''Bitcoin'') \<and> lowercased (lower ''USD'')"
proof -
  have f: "store (snd (get_fiat_rates ''usd'' cold_world)) ''fx:USD''
             \<noteq> store cold_world ''fx:USD''"
    unfolding cold_fiat_usd by (simp add: cold_world_def)
  have c: "store (snd (get_crypto_simple [''Bitcoin''] [''USD''] cold_world)) ''cg:bitcoin|usd''
             \<noteq> store cold_world ''cg:bitcoin|usd''"
    unfolding cold_crypto_btc by (simp add: cold_world_def)
  from f c cache_keys_normalized [of "''usd''" cold_world "[''Bitcoin'']" "[''USD'']"]
  show ?thesis by simp
qed

section \<open>What the cache holds\<close>

text \<open>
  C9. In every world the process can reach from an empty cache, each entry of the cache
  holds a payload that is a dict, is not empty, has an integer under \<^verbatim>\<open>"ts"\<close>, and has
  \<^verbatim>\<open>"base"\<close> and \<^verbatim>\<open>"rates"\<close> (under a key that starts with \<^verbatim>\<open>fx:\<close>) or \<^verbatim>\<open>"data"\<close> (under a key
  that starts with \<^verbatim>\<open>cg:\<close>). So whenever an entry is fresh, what \<^verbatim>\<open>TTLCache.get\<close> returns
  is that payload and counts as true in the test \<^verbatim>\<open>if cached:\<close> of the aggregators.
\<close>

theorem cached_payloads_well_formed:
  assumes "reachable w"
  shows "cache_ok w
    \<and> (\<forall>k t p. store w k = Some (t, p) \<longrightarrow>
          is_dict p \<and> truthy p \<and> has_int_ts p
          \<and> ((has_key p ''base'' \<and> has_key p ''rates'') \<or> has_key p ''data''))
    \<and> (\<forall>k max_age t p.
          store w k = Some (t, p) \<and> clock w (ticks w) - t < real_of_int max_age \<longrightarrow>
          fst (TTLCache_get k max_age w) = p \<and> truthy (fst (TTLCache_get k max_age w)))"
proof -
  have ok: "cache_ok w" using assms by (rule reachable_imp_cache_ok)
  have sh: "is_dict p \<and> truthy p \<and> has_int_ts p
          \<and> ((has_key p ''base'' \<and> has_key p ''rates'') \<or> has_key p ''data'')"
    if "store w k = Some (t, p)" for k t p
    using ok that unfolding cache_ok_def fiat_payload_def crypto_payload_def by blast
  have hit: "fst (TTLCache_get k max_age w) = p \<and> truthy (fst (TTLCache_get k max_age w))"
    if "store w k = Some (t, p) \<and> clock w (ticks w) - t < real_of_int max_age"
    for k max_age t p
    using that sh [of k t p] by (simp add: TTLCache_get_present)
  from ok sh hit show ?thesis by blast
qed

theorem cached_payloads_well_formed_witness:
  "cache_ok (snd (get_fiat_rates ''usd'' cold_world))
   \<and> has_int_ts usd_payload \<and> has_key usd_payload ''rates''
   \<and> fst (TTLCache_get ''fx:USD'' 1800 (snd (get_fiat_rates ''usd'' cold_world))) = usd_payload
   \<and> truthy (fst (TTLCache_get ''fx:USD'' 1800 (snd (get_fiat_rates ''usd'' cold_world))))"
proof -
  let ?w = "snd (get_fiat_rates ''usd'' cold_world)"
  have s: "store cold_world = Map.empty" by (simp add: cold_world_def)
  have r: "reachable ?w" by (rule reachable.fiat [OF reachable.start [OF s]])
  have e: "store ?w ''fx:USD'' = Some (1001, usd_payload)"
    by (simp add: cold_fiat_usd)
  have f: "clock ?w (ticks ?w) - 1001 < real_of_int 1800"
    unfolding cold_fiat_usd by (simp add: cold_world_def)
  have nd: "\<not> has_key usd_payload ''data''"
    by (simp add: has_key_def usd_payload_def)
  from cached_payloads_well_formed [OF r] e f nd show ?thesis by blast
qed

section \<open>The lists of the crypto route\<close>

text \<open>
  C10. \<^verbatim>\<open>/crypto\<close> hands \<^verbatim>\<open>get_crypto_simple\<close> the lists its two query strings stand for.
  The list of a string is made of the segments between its commas (joining the segments
  with commas gives the string back, and no segment has a comma), each stripped of the
  whitespace around it, without the segments that are empty once stripped: every element
  of the list is non-empty, has no comma and has no whitespace at either end. The string
  \<^verbatim>\<open>bitcoin, ,ethereum,\<close> stands for \<^verbatim>\<open>[bitcoin, ethereum]\<close>, and a string of nothing but
  commas and whitespace stands for the empty list; no string is an error here.
\<close>

theorem crypto_parses_lists:
  "crypto coins vs w = get_crypto_simple (csv_list coins) (csv_list vs) w
   \<and> csv_list ''bitcoin, ,ethereum,'' = [''bitcoin'', ''ethereum'']
   \<and> join '','' (split CHR '','' s) = s
   \<and> (\<forall>seg \<in> set (split CHR '','' s). CHR '','' \<notin> set seg)
   \<and> (\<forall>seg. \<exists>l r. seg = l @ strip seg @ r
          \<and> (\<forall>c \<in> set l. is_space c) \<and> (\<forall>c \<in> set r. is_space c))
   \<and> csv_list s = map strip (filter (\<lambda>seg. strip seg \<noteq> []) (split CHR '','' s))
   \<and> (\<forall>x \<in> set (csv_list s).
          x \<noteq> [] \<and> CHR '','' \<notin> set x \<and> \<not> is_space (hd x) \<and> \<not> is_space (last x))
   \<and> ((\<forall>c \<in> set s. c = CHR '','' \<or> is_space c) \<longrightarrow> csv_list s = [])"
proof -
  have a: "crypto coins vs w = get_crypto_simple (csv_list coins) (csv_list vs) w"
    by (simp add: crypto_def)
  have b: "join '','' (split CHR '','' s) = s" by (rule join_split)
  have c: "\<forall>seg \<in> set (split CHR '','' s). CHR '','' \<notin> set seg"
    using split_segment_chars by blast
  have d: "\<forall>seg. \<exists>l r. seg = l @ strip seg @ r
          \<and> (\<forall>c \<in> set l. is_space c) \<and> (\<forall>c \<in> set r. is_space c)"
    using strip_decomp by (rule allI)
  have e: "csv_list s = map strip (filter (\<lambda>seg. strip seg \<noteq> []) (split CHR '','' s))"
    by (simp add: csv_list_def)
  have f: "\<forall>x \<in> set (csv_list s).
          x \<noteq> [] \<and> CHR '','' \<notin> set x \<and> \<not> is_space (hd x) \<and> \<not> is_space (last x)"
    using csv_list_elements by (rule ballI)
  have g: "(\<forall>c \<in> set s. c = CHR '','' \<or> is_space c) \<longrightarrow> csv_list s = []"
    using csv_list_all_empty by (rule impI)
  show ?thesis by (rule conjI a csv_list_example b c d e f g)+
qed

theorem crypto_parses_lists_witness:
  "csv_list '', ,'' = []
   \<and> csv_list ''bitcoin, ,ethereum,'' = [''bitcoin'', ''ethereum'']
   \<and> \<not> is_space (hd ''bitcoin'') \<and> \<not> is_space (last ''bitcoin'')
   \<and> CHR '','' \<notin> set '' ''
   \<and> crypto [] [] cold_world = get_crypto_simple [] [] cold_world"
proof -
  have h: "\<forall>c \<in> set '', ,''. c = CHR '','' \<or> is_space c"
    by (simp add: is_space_def)
  have h0: "\<forall>c \<in> set []. c = CHR '','' \<or> is_space c" by simp
  have sp: "'' '' \<in> set (split CHR '','' ''bitcoin, ,ethereum,'')" by code_simp
  note t1 = crypto_parses_lists [of "[]" "[]" cold_world "'', ,''"]
  note t2 = crypto_parses_lists [of "[]" "[]" cold_world "''bitcoin, ,ethereum,''"]
  note t3 = crypto_parses_lists [of "[]" "[]" cold_world "[]"]
  note c2 = conjunct2
  have e1: "csv_list '', ,'' = []"
    using t1 [THEN c2, THEN c2, THEN c2, THEN c2, THEN c2, THEN c2, THEN c2] h by (rule mp)
  have e0: "csv_list [] = []"
    using t3 [THEN c2, THEN c2, THEN c2, THEN c2, THEN c2, THEN c2, THEN c2] h0 by (rule mp)
  have ex: "csv_list ''bitcoin, ,ethereum,'' = [''bitcoin'', ''ethereum'']"
    using t2 [THEN c2, THEN conjunct1] .
  then have m: "''bitcoin'' \<in> set (csv_list ''bitcoin, ,ethereum,'')" by simp
  have e2: "\<not> is_space (hd ''bitcoin'') \<and> \<not> is_space (last ''bitcoin'')"
    using t2 [THEN c2, THEN c2, THEN c2, THEN c2, THEN c2, THEN c2, THEN conjunct1,
              THEN bspec, OF m]
    by simp
  have e3: "CHR '','' \<notin> set '' ''"
    using t2 [THEN c2, THEN c2, THEN c2, THEN conjunct1, THEN bspec, OF sp] .
  have e4: "crypto [] [] cold_world = get_crypto_simple [] [] cold_world"
    using t1 [THEN conjunct1] e0 by simp
  from e1 ex e2 e3 e4 show ?thesis by simp
qed

end
